theory Spec2Isabelle
  imports Main "HOL-Library.Sublist"
begin

section \<open>Text\<close>

text \<open>
  A JavaScript string is a sequence of code units. The model keeps the code units
  below 256 as HOL characters, so a text is a \<open>string\<close>. In that range the white space
  of \<open>String.prototype.trim\<close> and of the regular-expression class \<open>\s\<close> is
  TAB, LF, VT, FF, CR, SPACE and NBSP, and the line terminators (the characters that
  the regular-expression dot does not match) are LF and CR.
\<close>

abbreviation NL :: char where
  "NL \<equiv> CHR 0x0A"

definition isWhiteSpace :: "char \<Rightarrow> bool" where
  "isWhiteSpace c =
     (c = CHR 0x09 \<or> c = CHR 0x0A \<or> c = CHR 0x0B \<or> c = CHR 0x0C \<or> c = CHR 0x0D
      \<or> c = CHR 0x20 \<or> c = CHR 0xA0)"

definition isLineTerminator :: "char \<Rightarrow> bool" where
  "isLineTerminator c = (c = CHR 0x0A \<or> c = CHR 0x0D)"

definition isDigit :: "char \<Rightarrow> bool" where
  "isDigit c = (c \<in> set ''0123456789'')"

text \<open>\<open>output.split("\n")\<close>: the pieces between line feeds; never the empty list.\<close>

fun split_nl :: "string \<Rightarrow> string list" where
  "split_nl [] = [[]]"
| "split_nl (c # cs) =
     (if c = NL then [] # split_nl cs
      else (case split_nl cs of [] \<Rightarrow> [[c]] | l # ls \<Rightarrow> (c # l) # ls))"

text \<open>\<open>l.trim()\<close>: white space removed at both ends.\<close>

definition trim :: "string \<Rightarrow> string" where
  "trim l = rev (dropWhile isWhiteSpace (rev (dropWhile isWhiteSpace l)))"

text \<open>A literal prefix of a pattern: the rest of the text behind it, if it is there.\<close>

fun strip_lit :: "string \<Rightarrow> string \<Rightarrow> string option" where
  "strip_lit [] s = Some s"
| "strip_lit (p # ps) [] = None"
| "strip_lit (p # ps) (c # cs) = (if p = c then strip_lit ps cs else None)"

text \<open>The decimal numeral of a length, as a template literal prints it.\<close>

fun digit_char :: "nat \<Rightarrow> char" where
  "digit_char n = ''0123456789'' ! (n mod 10)"

fun string_of_nat :: "nat \<Rightarrow> string" where
  "string_of_nat n =
     (if n < 10 then [digit_char n] else string_of_nat (n div 10) @ [digit_char n])"

declare string_of_nat.simps [simp del]


section \<open>Values and exceptions\<close>

text \<open>
  The values that \<open>JSON.parse\<close> returns, with \<open>undefined\<close> added as the value of a
  missing property. Numbers are carried as integers: the parsers copy them and test
  them for zero, and compute nothing with them. An object is the list of its own
  properties.
\<close>

datatype jsval =
    Undefined
  | Null
  | Bool bool
  | Num int
  | Str string
  | Arr "jsval list"
  | Obj "(string \<times> jsval) list"

datatype exn = SyntaxError | TypeError

definition bindE :: "exn + 'a \<Rightarrow> ('a \<Rightarrow> exn + 'b) \<Rightarrow> exn + 'b" where
  "bindE r f = (case r of Inl e \<Rightarrow> Inl e | Inr x \<Rightarrow> f x)"

text \<open>The test of \<open>if (v)\<close> and of \<open>a && b\<close>.\<close>

fun truthy :: "jsval \<Rightarrow> bool" where
  "truthy Undefined = False"
| "truthy Null = False"
| "truthy (Bool b) = b"
| "truthy (Num n) = (n \<noteq> 0)"
| "truthy (Str s) = (s \<noteq> [])"
| "truthy (Arr xs) = True"
| "truthy (Obj kvs) = True"

text \<open>The test of \<open>a ?? b\<close> and of \<open>a?.k\<close>.\<close>

fun nullish :: "jsval \<Rightarrow> bool" where
  "nullish Undefined = True"
| "nullish Null = True"
| "nullish v = False"

text \<open>
  Property access \<open>v.k\<close>, for the property names that the parser reads (\<open>reason\<close>,
  \<open>message\<close>, \<open>spans\<close>, \<open>label\<close>, \<open>level\<close>, \<open>code\<close>, \<open>file_name\<close>, \<open>line_start\<close>,
  \<open>column_start\<close>, \<open>rendered\<close>, \<open>suggested_replacement\<close>): none of them is inherited
  from a prototype, so an object gives its own property or \<open>undefined\<close>, a boolean, a
  number, a string and an array give \<open>undefined\<close>, and \<open>null\<close> and \<open>undefined\<close> throw.
\<close>

fun get_prop :: "jsval \<Rightarrow> string \<Rightarrow> exn + jsval" where
  "get_prop Undefined k = Inl TypeError"
| "get_prop Null k = Inl TypeError"
| "get_prop (Obj kvs) k = Inr (case map_of kvs k of None \<Rightarrow> Undefined | Some v \<Rightarrow> v)"
| "get_prop v k = Inr Undefined"

text \<open>\<open>Array.prototype.find\<close> with a callback that may throw.\<close>

fun find_list :: "(jsval \<Rightarrow> exn + bool) \<Rightarrow> jsval list \<Rightarrow> exn + jsval" where
  "find_list p [] = Inr Undefined"
| "find_list p (s # ss) =
     (case p s of Inl e \<Rightarrow> Inl e
      | Inr b \<Rightarrow> if b then Inr s else find_list p ss)"

text \<open>
  The call \<open>v.find(p)\<close>: only an array has the method; on \<open>null\<close> and \<open>undefined\<close> the
  property access throws, on every other value \<open>find\<close> is not a function.
\<close>

fun call_find :: "jsval \<Rightarrow> (jsval \<Rightarrow> exn + bool) \<Rightarrow> exn + jsval" where
  "call_find (Arr xs) p = find_list p xs"
| "call_find v p = Inl TypeError"

text \<open>The element access \<open>v[0]\<close> on an array.\<close>

fun index0 :: "jsval \<Rightarrow> exn + jsval" where
  "index0 (Arr []) = Inr Undefined"
| "index0 (Arr (x # xs)) = Inr x"
| "index0 Undefined = Inl TypeError"
| "index0 Null = Inl TypeError"
| "index0 (Obj kvs) = Inr (case map_of kvs ''0'' of None \<Rightarrow> Undefined | Some v \<Rightarrow> v)"
| "index0 (Str s) = Inr (case s of [] \<Rightarrow> Undefined | c # cs \<Rightarrow> Str [c])"
| "index0 v = Inr Undefined"


section \<open>The diagnostic parser\<close>

text \<open>
  The interface \<open>Diagnostic\<close>. The casts of the source (\<open>as Diagnostic["level"]\<close>) are
  erased when the program is compiled, so at run time every field holds whatever
  value the record had.
\<close>

record Diagnostic =
  level :: jsval
  code :: jsval
  message :: jsval
  "file" :: jsval
  line :: jsval
  column :: jsval
  rendered :: jsval
  suggestion :: jsval

text \<open>The callback \<open>(s) => s.label !== null\<close>.\<close>

definition label_not_null :: "jsval \<Rightarrow> exn + bool" where
  "label_not_null s = bindE (get_prop s ''label'') (\<lambda>l. Inr (l \<noteq> Null))"

text \<open>\<open>m.spans.find((s) => s.label !== null) ?? m.spans[0]\<close>\<close>

definition primarySpan_of :: "jsval \<Rightarrow> exn + jsval" where
  "primarySpan_of m =
     bindE (get_prop m ''spans'') (\<lambda>spans.
     bindE (call_find spans label_not_null) (\<lambda>found.
       if nullish found then index0 spans else Inr found))"

text \<open>\<open>m.code?.code\<close>\<close>

definition code_of :: "jsval \<Rightarrow> exn + jsval" where
  "code_of m =
     bindE (get_prop m ''code'') (\<lambda>c. if nullish c then Inr Undefined else get_prop c ''code'')"

text \<open>\<open>primarySpan.suggested_replacement ?? undefined\<close>\<close>

definition suggestion_of :: "jsval \<Rightarrow> exn + jsval" where
  "suggestion_of s =
     bindE (get_prop s ''suggested_replacement'') (\<lambda>r. Inr (if nullish r then Undefined else r))"

text \<open>
  The body of the \<open>try\<close> block for one line, on the array \<open>diagnostics\<close>. \<open>JSON.parse\<close>
  is a parameter: \<open>None\<close> is its \<open>SyntaxError\<close>.
\<close>

definition try_body ::
  "(string \<Rightarrow> jsval option) \<Rightarrow> string \<Rightarrow> Diagnostic list \<Rightarrow> exn + Diagnostic list" where
  "try_body JSON_parse ln diagnostics =
     (case JSON_parse ln of
        None \<Rightarrow> Inl SyntaxError
      | Some msg \<Rightarrow>
          bindE (get_prop msg ''reason'') (\<lambda>reason.
          if reason \<noteq> Str ''compiler-message'' then Inr diagnostics
          else
          bindE (get_prop msg ''message'') (\<lambda>m.
          if \<not> truthy m then Inr diagnostics
          else
          bindE (primarySpan_of m) (\<lambda>primarySpan.
          if \<not> truthy primarySpan then Inr diagnostics
          else
          bindE (get_prop m ''level'') (\<lambda>lv.
          bindE (code_of m) (\<lambda>cd.
          bindE (get_prop m ''message'') (\<lambda>ms.
          bindE (get_prop primarySpan ''file_name'') (\<lambda>fl.
          bindE (get_prop primarySpan ''line_start'') (\<lambda>li.
          bindE (get_prop primarySpan ''column_start'') (\<lambda>co.
          bindE (get_prop m ''rendered'') (\<lambda>re.
          bindE (suggestion_of primarySpan) (\<lambda>su.
            Inr (diagnostics @
              [\<lparr>level = lv, code = cd, message = ms, file = fl, line = li, column = co,
                rendered = re, suggestion = su\<rparr>])))))))))))))"

text \<open>\<open>try { ... } catch { }\<close>: an exception of the body leaves the array as it was.\<close>

definition try_catch :: "exn + 's \<Rightarrow> (exn \<Rightarrow> exn + 's) \<Rightarrow> exn + 's" where
  "try_catch r h = (case r of Inl e \<Rightarrow> h e | Inr s \<Rightarrow> Inr s)"

text \<open>\<open>for (const x of xs) { ... }\<close>: an exception of the body ends the loop.\<close>

fun for_of :: "'a list \<Rightarrow> ('a \<Rightarrow> 's \<Rightarrow> exn + 's) \<Rightarrow> 's \<Rightarrow> exn + 's" where
  "for_of [] body s = Inr s"
| "for_of (x # xs) body s =
     (case body x s of Inl e \<Rightarrow> Inl e | Inr s' \<Rightarrow> for_of xs body s')"

text \<open>\<open>output.split("\n").filter((l) => l.trim())\<close>: a string is true when it is not empty.\<close>

definition nonblank_lines :: "string \<Rightarrow> string list" where
  "nonblank_lines output = filter (\<lambda>l. trim l \<noteq> []) (split_nl output)"

definition parseCargoDiagnostics ::
  "(string \<Rightarrow> jsval option) \<Rightarrow> string \<Rightarrow> exn + Diagnostic list" where
  "parseCargoDiagnostics JSON_parse output =
     for_of (nonblank_lines output)
       (\<lambda>ln diagnostics.
          try_catch (try_body JSON_parse ln diagnostics) (\<lambda>e. Inr diagnostics))
       []"

text \<open>
  A line that carries a compiler message with at least one span: \<open>JSON.parse\<close> accepts
  it, its \<open>reason\<close> is \<open>"compiler-message"\<close>, its \<open>message\<close> is true, and the \<open>spans\<close>
  of the message are an array that is not empty.
\<close>

definition compiler_message_record :: "(string \<Rightarrow> jsval option) \<Rightarrow> string \<Rightarrow> bool" where
  "compiler_message_record JSON_parse ln =
     (case JSON_parse ln of
        None \<Rightarrow> False
      | Some msg \<Rightarrow>
          get_prop msg ''reason'' = Inr (Str ''compiler-message'') \<and>
          (case get_prop msg ''message'' of
             Inl e \<Rightarrow> False
           | Inr m \<Rightarrow>
               truthy m \<and>
               (case get_prop m ''spans'' of
                  Inr (Arr xs) \<Rightarrow> xs \<noteq> []
                | _ \<Rightarrow> False)))"

text \<open>What one line adds to the array: the diagnostics of the \<open>try\<close> block run on \<open>[]\<close>.\<close>

definition line_diagnostics :: "(string \<Rightarrow> jsval option) \<Rightarrow> string \<Rightarrow> Diagnostic list" where
  "line_diagnostics JSON_parse ln =
     (case try_body JSON_parse ln [] of Inl e \<Rightarrow> [] | Inr ds \<Rightarrow> ds)"


section \<open>The test result parser\<close>

record TestResult =
  name :: string
  status :: string

record TestOutput =
  tests :: "TestResult list"
  summary :: string

text \<open>
  The pattern \<open>/^test\s+(.+?)\s+\.\.\.\s+(ok|FAILED|ignored)/\<close>, matched against one
  line as a backtracking matcher does it.

  \<open>outcome_tail\<close> is the part behind the name, \<open>\s+\.\.\.\s+(ok|FAILED|ignored)\<close>. Each
  \<open>\s+\<close> there is followed by a character that is not white space, so only the whole
  run of white space can match. The result is the outcome token.
\<close>

definition outcome_tail :: "string \<Rightarrow> string option" where
  "outcome_tail r =
     (if takeWhile isWhiteSpace r = [] then None
      else
        (case strip_lit ''...'' (dropWhile isWhiteSpace r) of
           None \<Rightarrow> None
         | Some r2 \<Rightarrow>
             if takeWhile isWhiteSpace r2 = [] then None
             else
               (let r3 = dropWhile isWhiteSpace r2 in
                if strip_lit ''ok'' r3 \<noteq> None then Some ''ok''
                else if strip_lit ''FAILED'' r3 \<noteq> None then Some ''FAILED''
                else if strip_lit ''ignored'' r3 \<noteq> None then Some ''ignored''
                else None)))"

text \<open>
  \<open>(.+?)\<close> is lazy: the shortest name comes first, and the name grows by one character,
  which must not be a line terminator, as long as the tail does not match behind it.
  \<open>nm\<close> is the name read so far.
\<close>

fun name_lazy :: "string \<Rightarrow> string \<Rightarrow> (string \<times> string) option" where
  "name_lazy nm [] = None"
| "name_lazy nm (c # cs) =
     (if isLineTerminator c then None
      else
        (case outcome_tail cs of
           Some tok \<Rightarrow> Some (nm @ [c], tok)
         | None \<Rightarrow> name_lazy (nm @ [c]) cs))"

text \<open>
  The \<open>\s+\<close> behind \<open>test\<close> is greedy: it takes the whole run of white space first and
  gives it back one character at a time (the dot of the name matches white space too),
  down to one character.
\<close>

fun ws_greedy :: "nat \<Rightarrow> string \<Rightarrow> (string \<times> string) option" where
  "ws_greedy 0 r = None"
| "ws_greedy (Suc k) r =
     (case name_lazy [] (drop (Suc k) r) of
        Some x \<Rightarrow> Some x
      | None \<Rightarrow> ws_greedy k r)"

text \<open>\<open>line.match(...)\<close>: the groups 1 and 2 of the match, if there is one.\<close>

definition outcome_match :: "string \<Rightarrow> (string \<times> string) option" where
  "outcome_match ln =
     (case strip_lit ''test'' ln of
        None \<Rightarrow> None
      | Some r \<Rightarrow> ws_greedy (length (takeWhile isWhiteSpace r)) r)"

text \<open>\<open>toLowerCase\<close> on the letters A to Z; the three outcome tokens hold no other capital.\<close>

definition toLowerCase :: "string \<Rightarrow> string" where
  "toLowerCase s =
     map (\<lambda>c. case map_of (zip ''ABCDEFGHIJKLMNOPQRSTUVWXYZ'' ''abcdefghijklmnopqrstuvwxyz'') c of
                 None \<Rightarrow> c
               | Some d \<Rightarrow> d) s"

text \<open>The loop over the lines, on the array \<open>tests\<close>.\<close>

fun tests_loop :: "string list \<Rightarrow> TestResult list \<Rightarrow> TestResult list" where
  "tests_loop [] ts = ts"
| "tests_loop (ln # lns) ts =
     tests_loop lns
       (case outcome_match ln of
          None \<Rightarrow> ts
        | Some (nm, tok) \<Rightarrow> ts @ [\<lparr>name = nm, status = toLowerCase tok\<rparr>])"

text \<open>
  The pattern \<open>/test result: (.*?)\. (\d+) passed; (\d+) failed; (\d+) ignored/\<close>, searched
  in the whole output.

  \<open>digits_then lit\<close> is \<open>(\d+)\<close> followed by the literal \<open>lit\<close>, which starts with a
  space here: only the whole run of digits can match.
\<close>

definition digits_then :: "string \<Rightarrow> string \<Rightarrow> (string \<times> string) option" where
  "digits_then lit s =
     (if takeWhile isDigit s = [] then None
      else
        (case strip_lit lit (dropWhile isDigit s) of
           None \<Rightarrow> None
         | Some r \<Rightarrow> Some (takeWhile isDigit s, r)))"

text \<open>\<open>\. (\d+) passed; (\d+) failed; (\d+) ignored\<close>: the groups 2, 3 and 4.\<close>

definition counts_tail :: "string \<Rightarrow> (string \<times> string \<times> string) option" where
  "counts_tail s =
     (case strip_lit ''. '' s of
        None \<Rightarrow> None
      | Some r1 \<Rightarrow>
          (case digits_then '' passed; '' r1 of
             None \<Rightarrow> None
           | Some (p, r2) \<Rightarrow>
               (case digits_then '' failed; '' r2 of
                  None \<Rightarrow> None
                | Some (f, r3) \<Rightarrow>
                    (case digits_then '' ignored'' r3 of
                       None \<Rightarrow> None
                     | Some (i, r4) \<Rightarrow> Some (p, f, i)))))"

text \<open>\<open>(.*?)\<close> is lazy: the empty text first, then one more character that is no line terminator.\<close>

fun status_lazy :: "string \<Rightarrow> (string \<times> string \<times> string) option" where
  "status_lazy [] = counts_tail []"
| "status_lazy (c # cs) =
     (case counts_tail (c # cs) of
        Some x \<Rightarrow> Some x
      | None \<Rightarrow> if isLineTerminator c then None else status_lazy cs)"

text \<open>The match that starts at the first character of the text.\<close>

definition summary_at :: "string \<Rightarrow> (string \<times> string \<times> string) option" where
  "summary_at s =
     (case strip_lit ''test result: '' s of
        None \<Rightarrow> None
      | Some r \<Rightarrow> status_lazy r)"

text \<open>\<open>output.match(...)\<close> without the flag \<open>g\<close>: the match at the leftmost position that has one.\<close>

fun summaryMatch :: "string \<Rightarrow> (string \<times> string \<times> string) option" where
  "summaryMatch [] = summary_at []"
| "summaryMatch (c # cs) =
     (case summary_at (c # cs) of
        Some x \<Rightarrow> Some x
      | None \<Rightarrow> summaryMatch cs)"

definition parseTestOutput :: "string \<Rightarrow> TestOutput" where
  "parseTestOutput output =
     (let ts = tests_loop (split_nl output) []
      in \<lparr>tests = ts,
          summary =
            (case summaryMatch output of
               Some (p, f, i) \<Rightarrow> p @ '' passed, '' @ f @ '' failed, '' @ i @ '' ignored''
             | None \<Rightarrow> string_of_nat (length ts) @ '' tests found'')\<rparr>)"


section \<open>The report formatter\<close>

text \<open>
  The three pictographs of the report lie outside the characters of the model; each is
  written as the bytes of its UTF-8 encoding. The formatter only concatenates them.
\<close>

definition cross_mark :: string where
  "cross_mark = [CHR 0xE2, CHR 0x9D, CHR 0x8C]"

definition check_mark :: string where
  "check_mark = [CHR 0xE2, CHR 0x9C, CHR 0x85]"

definition skip_mark :: string where
  "skip_mark = [CHR 0xE2, CHR 0x8F, CHR 0xAD, CHR 0xEF, CHR 0xB8, CHR 0x8F]"

text \<open>The loop \<open>for (const t of failed) output += `   - ${t.name}\n`\<close>.\<close>

fun failed_lines :: "TestResult list \<Rightarrow> string \<Rightarrow> string" where
  "failed_lines [] out = out"
| "failed_lines (t # ts) out = failed_lines ts (out @ ''   - '' @ name t @ [NL])"

definition formatTestResults :: "TestResult list \<Rightarrow> string \<Rightarrow> int \<Rightarrow> string \<Rightarrow> string" where
  "formatTestResults ts sm exitCode stderr =
     (let out0 = ''Test Results: '' @ sm @ [NL, NL];
          failed = filter (\<lambda>t. status t = ''failed'') ts;
          passed = filter (\<lambda>t. status t = ''ok'') ts;
          ignored = filter (\<lambda>t. status t = ''ignored'') ts;
          out1 = (if length failed > 0
                  then failed_lines failed (out0 @ cross_mark @ '' Failed tests:'' @ [NL]) @ [NL]
                  else out0);
          out2 = (if length passed > 0
                  then out1 @ check_mark @ '' Passed: '' @ string_of_nat (length passed)
                         @ '' tests'' @ [NL]
                  else out1);
          out3 = (if length ignored > 0
                  then out2 @ skip_mark @ '' Ignored: '' @ string_of_nat (length ignored)
                         @ '' tests'' @ [NL]
                  else out2)
      in if exitCode \<noteq> 0 \<and> length failed = 0
         then out3 @ [NL] @ ''Compilation or other error:'' @ [NL] @ stderr
         else out3)"


section \<open>The tool-call handler\<close>

text \<open>
  The response of a tool call: the text of its one content item and the flag
  \<open>isError\<close> (false when the source leaves it out).
\<close>

record Response =
  text_of :: string
  isError :: bool

text \<open>
  The arguments of a call: the option \<open>path\<close>, which may be missing, and the other
  options, which only the cases of the \<open>switch\<close> read.
\<close>

record 'o Arguments =
  path :: "string option"
  options :: 'o

text \<open>
  A started subprocess is an entry of a log: the arguments given to \<open>cargo\<close> and the
  working directory. \<open>runCargoCommand\<close> adds the entry and gives the result of the
  process, which comes from outside (\<open>run\<close>).
\<close>

record CommandResult =
  stdout :: string
  stderr_of :: string
  exitCode_of :: int

type_synonym spawn_log = "(string list \<times> string) list"

definition runCargoCommand ::
  "(string list \<Rightarrow> string \<Rightarrow> CommandResult) \<Rightarrow> string list \<Rightarrow> string \<Rightarrow> spawn_log
     \<Rightarrow> CommandResult \<times> spawn_log" where
  "runCargoCommand run args cwd lg = (run args cwd, lg @ [(args, cwd)])"

text \<open>\<open>existsSync(join(path, "Cargo.toml"))\<close>; \<open>join\<close> and \<open>existsSync\<close> belong to Node.\<close>

definition validateRustProject ::
  "(string \<Rightarrow> string \<Rightarrow> string) \<Rightarrow> (string \<Rightarrow> bool) \<Rightarrow> string \<Rightarrow> bool" where
  "validateRustProject path_join existsSync p = existsSync (path_join p ''Cargo.toml'')"

text \<open>
  The handler of \<open>CallToolRequestSchema\<close>. \<open>args\<close> is \<open>None\<close> when the request has no
  arguments, and reading \<open>path\<close> from it throws. The \<open>switch\<close> over the tool name
  behind the two guards is the parameter \<open>tool_switch\<close>: it gets the name, the
  arguments, the path and the log, and may start processes.
\<close>

definition call_tool ::
  "(string \<Rightarrow> string \<Rightarrow> string) \<Rightarrow> (string \<Rightarrow> bool)
     \<Rightarrow> (string \<Rightarrow> 'o Arguments \<Rightarrow> string \<Rightarrow> spawn_log \<Rightarrow> exn + Response \<times> spawn_log)
     \<Rightarrow> string \<Rightarrow> 'o Arguments option \<Rightarrow> spawn_log \<Rightarrow> exn + Response \<times> spawn_log" where
  "call_tool path_join existsSync tool_switch nm args lg =
     (case args of
        None \<Rightarrow> Inl TypeError
      | Some a \<Rightarrow>
          (case path a of
             None \<Rightarrow> Inr (\<lparr>text_of = ''Error: path is required'', isError = True\<rparr>, lg)
           | Some p \<Rightarrow>
               if p = [] then Inr (\<lparr>text_of = ''Error: path is required'', isError = True\<rparr>, lg)
               else if \<not> validateRustProject path_join existsSync p
               then Inr (\<lparr>text_of = ''Error: No Cargo.toml found at '' @ p
                                    @ ''. Is this a Rust project?'',
                           isError = True\<rparr>, lg)
               else tool_switch nm a p lg))"

text \<open>
  One case of the \<open>switch\<close>, \<open>bacon_fmt\<close>, as a sample of what lies behind the guards:
  it runs \<open>cargo fmt\<close> in the project directory.
\<close>

definition bacon_fmt_case ::
  "(string list \<Rightarrow> string \<Rightarrow> CommandResult) \<Rightarrow> string \<Rightarrow> 'o Arguments \<Rightarrow> string \<Rightarrow> spawn_log
     \<Rightarrow> exn + Response \<times> spawn_log" where
  "bacon_fmt_case run nm a p lg =
     (let (result, lg') = runCargoCommand run [''fmt''] p lg
      in Inr (\<lparr>text_of =
                 (if exitCode_of result = 0 then check_mark @ '' Code formatted successfully!''
                  else cross_mark @ '' Formatting failed:'' @ [NL] @ stderr_of result),
               isError = False\<rparr>, lg'))"


section \<open>Sample inputs\<close>

text \<open>
  Lines of \<open>cargo --message-format=json\<close> output and the values that \<open>JSON.parse\<close>
  returns for them. \<open>sample_JSON_parse\<close> is \<open>JSON.parse\<close> on these lines; a line
  that is not in the table stands for text that is not JSON.
\<close>

definition span_plain :: jsval where
  "span_plain = Obj [(''file_name'', Str ''a.rs''), (''line_start'', Num 1), (''column_start'', Num 2)]"

definition span_labelled :: jsval where
  "span_labelled =
     Obj [(''file_name'', Str ''b.rs''), (''line_start'', Num 3), (''column_start'', Num 4),
          (''label'', Str ''x'')]"

definition span_null_label :: jsval where
  "span_null_label =
     Obj [(''file_name'', Str ''c.rs''), (''line_start'', Num 5), (''column_start'', Num 6),
          (''label'', Null)]"

definition compiler_message :: "string \<Rightarrow> jsval list \<Rightarrow> jsval" where
  "compiler_message lv spans =
     Obj [(''reason'', Str ''compiler-message''),
          (''message'', Obj [(''level'', Str lv), (''message'', Str ''m''), (''spans'', Arr spans)])]"

definition line_plain_first :: string where
  \<open>line_plain_first = ''{"reason":"compiler-message","message":{"level":"error","message":"m","spans":[{"file_name":"a.rs","line_start":1,"column_start":2},{"file_name":"b.rs","line_start":3,"column_start":4,"label":"x"}]}}''\<close>

definition line_null_first :: string where
  \<open>line_null_first = ''{"reason":"compiler-message","message":{"level":"error","message":"m","spans":[{"file_name":"c.rs","line_start":5,"column_start":6,"label":null},{"file_name":"b.rs","line_start":3,"column_start":4,"label":"x"}]}}''\<close>

definition line_labelled_first :: string where
  \<open>line_labelled_first = ''{"reason":"compiler-message","message":{"level":"warning","message":"m","spans":[{"file_name":"b.rs","line_start":3,"column_start":4,"label":"x"},{"file_name":"c.rs","line_start":5,"column_start":6,"label":null}]}}''\<close>

definition line_no_spans :: string where
  \<open>line_no_spans = ''{"reason":"compiler-message","message":{"level":"error","message":"m","spans":[]}}''\<close>

definition line_failure_note :: string where
  \<open>line_failure_note = ''{"reason":"compiler-message","message":{"level":"failure-note","message":"m","spans":[{"file_name":"b.rs","line_start":3,"column_start":4,"label":"x"}]}}''\<close>

definition line_artifact :: string where
  \<open>line_artifact = ''{"reason":"compiler-artifact"}''\<close>

definition sample_JSON_parse :: "string \<Rightarrow> jsval option" where
  "sample_JSON_parse =
     map_of
       [(line_plain_first, compiler_message ''error'' [span_plain, span_labelled]),
        (line_null_first, compiler_message ''error'' [span_null_label, span_labelled]),
        (line_labelled_first, compiler_message ''warning'' [span_labelled, span_null_label]),
        (line_no_spans, compiler_message ''error'' []),
        (line_failure_note, compiler_message ''failure-note'' [span_labelled]),
        (line_artifact, Obj [(''reason'', Str ''compiler-artifact'')])]"

text \<open>The diagnostics that the sample spans give.\<close>

definition diag_at :: "string \<Rightarrow> string \<Rightarrow> int \<Rightarrow> int \<Rightarrow> Diagnostic" where
  "diag_at lv f l c =
     \<lparr>level = Str lv, code = Undefined, message = Str ''m'', file = Str f, line = Num l,
      column = Num c, rendered = Undefined, suggestion = Undefined\<rparr>"


text \<open>
  A file system without any file and one that holds only \<open>/crate/Cargo.toml\<close>, a
  \<open>join\<close> for absolute directories without a final slash, and a \<open>cargo\<close> that prints
  nothing and succeeds.
\<close>

definition sample_join :: "string \<Rightarrow> string \<Rightarrow> string" where
  "sample_join d f = d @ ''/'' @ f"

definition no_files :: "string \<Rightarrow> bool" where
  "no_files f = False"

definition only_marker :: "string \<Rightarrow> bool" where
  "only_marker f = (f = ''/crate/Cargo.toml'')"

definition sample_run :: "string list \<Rightarrow> string \<Rightarrow> CommandResult" where
  "sample_run args cwd = \<lparr>stdout = [], stderr_of = [], exitCode_of = 0\<rparr>"


section \<open>Auxiliary notions\<close>

text \<open>
  A text holds the beginning of the error heading of the test report when a line feed
  is followed by the letter C somewhere in it. A piece of a report is free of the
  heading when it holds no such pair and does not start with C, so that it cannot
  complete a pair behind a line feed either.
\<close>

fun lf_then_C :: "string \<Rightarrow> bool" where
  "lf_then_C (x # y # zs) = ((x = NL \<and> y = CHR ''C'') \<or> lf_then_C (y # zs))"
| "lf_then_C [x] = False"
| "lf_then_C [] = False"

definition heading_free :: "string \<Rightarrow> bool" where
  "heading_free xs = (\<not> lf_then_C xs \<and> (xs \<noteq> [] \<longrightarrow> hd xs \<noteq> CHR ''C''))"


section \<open>Properties of the diagnostic parser\<close>

subsection \<open>Lines\<close>

lemma split_nl_not_Nil [simp]: "split_nl s \<noteq> []"
  by (induction s) (auto split: list.splits)

lemma split_nl_append: "split_nl (a @ NL # b) = split_nl a @ split_nl b"
  by (induction a) (auto split: list.splits)

lemma split_nl_single: "NL \<notin> set ln \<Longrightarrow> split_nl ln = [ln]"
  by (induction ln) (auto split: list.splits)

lemma nonblank_lines_append:
  "nonblank_lines (a @ NL # b) = nonblank_lines a @ nonblank_lines b"
  by (simp add: nonblank_lines_def split_nl_append)

lemma nonblank_lines_subset: "set (nonblank_lines output) \<subseteq> set (split_nl output)"
  by (auto simp: nonblank_lines_def)

lemma try_body_acc:
  "try_body P ln ds = (case try_body P ln [] of Inl e \<Rightarrow> Inl e | Inr x \<Rightarrow> Inr (ds @ x))"
  by (simp add: try_body_def bindE_def split: option.splits sum.splits)

lemma try_catch_line:
  "try_catch (try_body P ln ds) (\<lambda>e. Inr ds) = Inr (ds @ line_diagnostics P ln)"
  by (subst try_body_acc) (simp add: try_catch_def line_diagnostics_def split: sum.splits)

lemma for_of_lines:
  "for_of lns (\<lambda>ln ds. try_catch (try_body P ln ds) (\<lambda>e. Inr ds)) ds
     = Inr (ds @ concat (map (line_diagnostics P) lns))"
  by (induction lns arbitrary: ds) (simp_all add: try_catch_line)

lemma parseCargoDiagnostics_lines:
  "parseCargoDiagnostics P output = Inr (concat (map (line_diagnostics P) (nonblank_lines output)))"
  by (simp add: parseCargoDiagnostics_def for_of_lines)

lemma line_diagnostics_length: "length (line_diagnostics P ln) \<le> 1"
  by (simp add: line_diagnostics_def try_body_def bindE_def split: option.splits sum.splits)

lemma find_list_result: "find_list p xs = Inr s \<Longrightarrow> s = Undefined \<or> s \<in> set xs"
  by (induction xs) (auto split: sum.splits if_splits)

lemma call_find_array: "call_find v p = Inr s \<Longrightarrow> \<exists>xs. v = Arr xs"
  by (cases v) simp_all

lemma primarySpan_of_member:
  assumes "primarySpan_of m = Inr s" and "truthy s"
  shows "\<exists>xs. get_prop m ''spans'' = Inr (Arr xs) \<and> s \<in> set xs"
proof -
  from assms(1) obtain spans found where
    sp: "get_prop m ''spans'' = Inr spans" and
    fd: "call_find spans label_not_null = Inr found" and
    res: "(if nullish found then index0 spans else Inr found) = Inr s"
    by (auto simp: primarySpan_of_def bindE_def split: sum.splits)
  from fd obtain xs where xs: "spans = Arr xs"
    using call_find_array by blast
  from fd xs have mem: "found = Undefined \<or> found \<in> set xs"
    using find_list_result by simp
  have "s \<in> set xs"
  proof (cases "nullish found")
    case True
    with res xs have "index0 (Arr xs) = Inr s" by simp
    with assms(2) show ?thesis by (cases xs) auto
  next
    case False
    with res have "found = s" by simp
    with mem False show ?thesis by auto
  qed
  with sp xs show ?thesis by simp
qed

lemma line_diagnostics_origin:
  assumes "d \<in> set (line_diagnostics P ln)"
  shows "\<exists>msg m xs s.
           P ln = Some msg \<and> get_prop msg ''reason'' = Inr (Str ''compiler-message'') \<and>
           get_prop msg ''message'' = Inr m \<and> truthy m \<and>
           get_prop m ''spans'' = Inr (Arr xs) \<and> s \<in> set xs \<and> primarySpan_of m = Inr s \<and>
           get_prop m ''level'' = Inr (level d) \<and>
           get_prop s ''file_name'' = Inr (file d) \<and>
           get_prop s ''line_start'' = Inr (line d) \<and>
           get_prop s ''column_start'' = Inr (column d)"
proof -
  from assms obtain msg where msg: "P ln = Some msg"
    by (auto simp: line_diagnostics_def try_body_def split: option.splits)
  from assms msg have reason: "get_prop msg ''reason'' = Inr (Str ''compiler-message'')"
    by (auto simp: line_diagnostics_def try_body_def bindE_def split: sum.splits if_splits)
  from assms msg reason obtain m where m: "get_prop msg ''message'' = Inr m" "truthy m"
    by (auto simp: line_diagnostics_def try_body_def bindE_def split: sum.splits if_splits)
  from assms msg reason m obtain s where s: "primarySpan_of m = Inr s" "truthy s"
    by (auto simp: line_diagnostics_def try_body_def bindE_def split: sum.splits if_splits)
  from primarySpan_of_member [OF s] obtain xs where
    xs: "get_prop m ''spans'' = Inr (Arr xs)" "s \<in> set xs" by blast
  from assms msg reason m s have
    "get_prop m ''level'' = Inr (level d) \<and>
     get_prop s ''file_name'' = Inr (file d) \<and>
     get_prop s ''line_start'' = Inr (line d) \<and>
     get_prop s ''column_start'' = Inr (column d)"
    by (auto simp: line_diagnostics_def try_body_def bindE_def split: sum.splits if_splits)
  with msg reason m s xs show ?thesis by blast
qed

lemma line_diagnostics_record:
  "line_diagnostics P ln \<noteq> [] \<Longrightarrow> compiler_message_record P ln"
proof -
  assume "line_diagnostics P ln \<noteq> []"
  then obtain d where "d \<in> set (line_diagnostics P ln)"
    by (cases "line_diagnostics P ln") auto
  from line_diagnostics_origin [OF this] show ?thesis
    by (auto simp: compiler_message_record_def)
qed

lemma line_diagnostics_no_spans:
  assumes "P ln = Some msg" "get_prop msg ''message'' = Inr m" "get_prop m ''spans'' = Inr (Arr [])"
  shows "line_diagnostics P ln = []"
proof (rule ccontr)
  assume "line_diagnostics P ln \<noteq> []"
  then obtain d where "d \<in> set (line_diagnostics P ln)"
    by (cases "line_diagnostics P ln") auto
  from line_diagnostics_origin [OF this] assms show False by auto
qed

subsection \<open>The primary span\<close>

text \<open>
  With two spans, the span with a label is chosen when the other span has the label
  \<open>null\<close>, in either order. A first span that has no property \<open>label\<close> at all is
  chosen itself: its label is \<open>undefined\<close>, which \<open>!== null\<close> lets pass.
\<close>

lemma primarySpan_null_then_labelled:
  assumes "get_prop m ''spans'' = Inr (Arr [s1, s2])"
    and "get_prop s1 ''label'' = Inr Null" and "get_prop s2 ''label'' = Inr (Str l)"
  shows "primarySpan_of m = Inr s2"
proof -
  from assms(3) have "\<not> nullish s2" by (cases s2) auto
  with assms show ?thesis
    by (simp add: primarySpan_of_def bindE_def label_not_null_def)
qed

lemma primarySpan_labelled_first:
  assumes "get_prop m ''spans'' = Inr (Arr (s1 # ss))"
    and "get_prop s1 ''label'' = Inr (Str l)"
  shows "primarySpan_of m = Inr s1"
proof -
  from assms(2) have "\<not> nullish s1" by (cases s1) auto
  with assms show ?thesis
    by (simp add: primarySpan_of_def bindE_def label_not_null_def)
qed

lemma primarySpan_missing_label_first:
  assumes "get_prop m ''spans'' = Inr (Arr (s1 # ss))"
    and "get_prop s1 ''label'' = Inr Undefined"
  shows "primarySpan_of m = Inr s1"
proof -
  from assms(2) have "\<not> nullish s1" by (cases s1) auto
  with assms show ?thesis
    by (simp add: primarySpan_of_def bindE_def label_not_null_def)
qed

text \<open>
  Claim C1: a record with two spans of which exactly one carries a label that is not
  null gives a Diagnostic located at the labelled span, in either order of the spans.
  The parser does not do this when the span without a label has no property \<open>label\<close>
  and comes first: for the record of \<open>line_plain_first\<close>, whose first span \<open>a.rs:1:2\<close>
  has no label and whose second span \<open>b.rs:3:4\<close> has the label \<open>"x"\<close>, the Diagnostic is
  located at \<open>a.rs:1:2\<close>.
\<close>

theorem unlabelled_first_span_wins:
  "parseCargoDiagnostics sample_JSON_parse line_plain_first = Inr [diag_at ''error'' ''a.rs'' 1 2]"
  by code_simp

subsection \<open>Records without spans, and where a location comes from\<close>

text \<open>
  Claim C4: a compiler-message record whose span list is empty contributes no
  Diagnostic: alone it gives the empty list, and between any two texts its line can be
  left out without changing the result. Every emitted Diagnostic has the file, line and
  column of a span in the span list of a record of the input.
\<close>

theorem empty_spans_dropped:
  "(NL \<notin> set ln \<longrightarrow> JSON_parse ln = Some msg \<longrightarrow> get_prop msg ''message'' = Inr m \<longrightarrow>
      get_prop m ''spans'' = Inr (Arr []) \<longrightarrow>
        parseCargoDiagnostics JSON_parse ln = Inr [] \<and>
        parseCargoDiagnostics JSON_parse (a @ NL # ln @ NL # b)
          = parseCargoDiagnostics JSON_parse (a @ NL # b)) \<and>
   (parseCargoDiagnostics JSON_parse out = Inr ds \<longrightarrow> d \<in> set ds \<longrightarrow>
      (\<exists>ln \<in> set (split_nl out). \<exists>msg m xs s.
         JSON_parse ln = Some msg \<and> get_prop msg ''message'' = Inr m \<and>
         get_prop m ''spans'' = Inr (Arr xs) \<and> s \<in> set xs \<and>
         get_prop s ''file_name'' = Inr (file d) \<and>
         get_prop s ''line_start'' = Inr (line d) \<and>
         get_prop s ''column_start'' = Inr (column d)))"
proof (intro conjI impI)
  assume nl: "NL \<notin> set ln" and rec: "JSON_parse ln = Some msg"
    "get_prop msg ''message'' = Inr m" "get_prop m ''spans'' = Inr (Arr [])"
  have none: "line_diagnostics JSON_parse ln = []"
    using rec by (rule line_diagnostics_no_spans)
  have one: "nonblank_lines ln = (if trim ln \<noteq> [] then [ln] else [])"
    using nl by (simp add: nonblank_lines_def split_nl_single)
  show "parseCargoDiagnostics JSON_parse ln = Inr []"
    by (simp add: parseCargoDiagnostics_lines one none)
  show "parseCargoDiagnostics JSON_parse (a @ NL # ln @ NL # b)
          = parseCargoDiagnostics JSON_parse (a @ NL # b)"
    by (simp add: parseCargoDiagnostics_lines nonblank_lines_append one none)
next
  assume "parseCargoDiagnostics JSON_parse out = Inr ds" and "d \<in> set ds"
  then obtain ln where ln: "ln \<in> set (nonblank_lines out)"
    and d: "d \<in> set (line_diagnostics JSON_parse ln)"
    by (auto simp: parseCargoDiagnostics_lines)
  from ln have "ln \<in> set (split_nl out)"
    using nonblank_lines_subset by blast
  with line_diagnostics_origin [OF d] show
    "\<exists>ln \<in> set (split_nl out). \<exists>msg m xs s.
         JSON_parse ln = Some msg \<and> get_prop msg ''message'' = Inr m \<and>
         get_prop m ''spans'' = Inr (Arr xs) \<and> s \<in> set xs \<and>
         get_prop s ''file_name'' = Inr (file d) \<and>
         get_prop s ''line_start'' = Inr (line d) \<and>
         get_prop s ''column_start'' = Inr (column d)"
    by blast
qed

theorem empty_spans_dropped_witness:
  "parseCargoDiagnostics sample_JSON_parse line_no_spans = Inr [] \<and>
   parseCargoDiagnostics sample_JSON_parse (line_labelled_first @ NL # line_no_spans @ NL # line_null_first)
     = parseCargoDiagnostics sample_JSON_parse (line_labelled_first @ NL # line_null_first) \<and>
   (\<exists>ln \<in> set (split_nl line_labelled_first). \<exists>msg m xs s.
       sample_JSON_parse ln = Some msg \<and> get_prop msg ''message'' = Inr m \<and>
       get_prop m ''spans'' = Inr (Arr xs) \<and> s \<in> set xs \<and>
       get_prop s ''file_name'' = Inr (Str ''b.rs'') \<and>
       get_prop s ''line_start'' = Inr (Num 3) \<and>
       get_prop s ''column_start'' = Inr (Num 4))"
proof -
  have h1: "NL \<notin> set line_no_spans" by code_simp
  have h2: "sample_JSON_parse line_no_spans = Some (compiler_message ''error'' [])" by code_simp
  have h3: "get_prop (compiler_message ''error'' []) ''message''
              = Inr (Obj [(''level'', Str ''error''), (''message'', Str ''m''), (''spans'', Arr [])])"
    by code_simp
  have h4: "get_prop (Obj [(''level'', Str ''error''), (''message'', Str ''m''), (''spans'', Arr [])]) ''spans''
              = Inr (Arr [])"
    by code_simp
  have h5: "parseCargoDiagnostics sample_JSON_parse line_labelled_first
              = Inr [diag_at ''warning'' ''b.rs'' 3 4]"
    by code_simp
  have h6: "diag_at ''warning'' ''b.rs'' 3 4 \<in> set [diag_at ''warning'' ''b.rs'' 3 4]" by simp
  from empty_spans_dropped
         [where JSON_parse = sample_JSON_parse and ln = line_no_spans
            and msg = "compiler_message ''error'' []"
            and m = "Obj [(''level'', Str ''error''), (''message'', Str ''m''), (''spans'', Arr [])]"
            and a = line_labelled_first and b = line_null_first
            and out = line_labelled_first and ds = "[diag_at ''warning'' ''b.rs'' 3 4]"
            and d = "diag_at ''warning'' ''b.rs'' 3 4"]
       h1 h2 h3 h4 h5 h6
  show ?thesis by (simp add: diag_at_def)
qed

subsection \<open>The level of a diagnostic\<close>

text \<open>
  Claim C5, as the parser has it: every emitted Diagnostic carries the value of the
  property \<open>level\<close> of the message of a record of the input, unchanged; the parser
  does not compare it with \<open>error\<close>, \<open>warning\<close>, \<open>note\<close> and \<open>help\<close>.
\<close>

theorem level_copied_from_record:
  assumes "parseCargoDiagnostics JSON_parse out = Inr ds" and "d \<in> set ds"
  shows "\<exists>ln \<in> set (split_nl out). \<exists>msg m.
           JSON_parse ln = Some msg \<and> get_prop msg ''message'' = Inr m \<and>
           get_prop m ''level'' = Inr (level d)"
proof -
  from assms obtain ln where ln: "ln \<in> set (nonblank_lines out)"
    and d: "d \<in> set (line_diagnostics JSON_parse ln)"
    by (auto simp: parseCargoDiagnostics_lines)
  from ln have "ln \<in> set (split_nl out)"
    using nonblank_lines_subset by blast
  with line_diagnostics_origin [OF d] show ?thesis by blast
qed

theorem level_copied_from_record_witness:
  "parseCargoDiagnostics sample_JSON_parse line_failure_note = Inr [diag_at ''failure-note'' ''b.rs'' 3 4] \<and>
   (\<exists>ln \<in> set (split_nl line_failure_note). \<exists>msg m.
       sample_JSON_parse ln = Some msg \<and> get_prop msg ''message'' = Inr m \<and>
       get_prop m ''level'' = Inr (Str ''failure-note''))"
proof -
  have h1: "parseCargoDiagnostics sample_JSON_parse line_failure_note
              = Inr [diag_at ''failure-note'' ''b.rs'' 3 4]"
    by code_simp
  have h2: "diag_at ''failure-note'' ''b.rs'' 3 4 \<in> set [diag_at ''failure-note'' ''b.rs'' 3 4]"
    by simp
  from level_copied_from_record [OF h1 h2] h1 show ?thesis by (simp add: diag_at_def)
qed

text \<open>
  Claim C5 as it is written, that every emitted level is one of \<open>error\<close>, \<open>warning\<close>,
  \<open>note\<close> and \<open>help\<close>, fails for a record with the level \<open>failure-note\<close>.
\<close>

theorem level_failure_note_emitted:
  "parseCargoDiagnostics sample_JSON_parse line_failure_note
     = Inr [diag_at ''failure-note'' ''b.rs'' 3 4] \<and>
   level (diag_at ''failure-note'' ''b.rs'' 3 4)
     \<notin> {Str ''error'', Str ''warning'', Str ''note'', Str ''help''}"
  by code_simp

subsection \<open>No exception leaves the parser\<close>

text \<open>
  The body of the \<open>try\<close> block does throw: a \<open>SyntaxError\<close> for a line that is not
  JSON, a \<open>TypeError\<close> for the JSON text \<open>null\<close>.
\<close>

lemma try_body_SyntaxError: "JSON_parse ln = None \<Longrightarrow> try_body JSON_parse ln ds = Inl SyntaxError"
  by (simp add: try_body_def)

lemma try_body_TypeError: "JSON_parse ln = Some Null \<Longrightarrow> try_body JSON_parse ln ds = Inl TypeError"
  by (simp add: try_body_def bindE_def)

text \<open>
  Claim C6: for every input the parser returns a list and throws nothing; the empty
  text gives the empty list, and so does every text none of whose lines is a
  compiler-message record with spans, in particular a text none of whose lines is
  JSON.
\<close>

theorem parseCargoDiagnostics_never_raises:
  "(\<exists>ds. parseCargoDiagnostics JSON_parse out = Inr ds) \<and>
   parseCargoDiagnostics JSON_parse [] = Inr [] \<and>
   ((\<forall>ln \<in> set (split_nl out). \<not> compiler_message_record JSON_parse ln) \<longrightarrow>
      parseCargoDiagnostics JSON_parse out = Inr []) \<and>
   ((\<forall>ln \<in> set (split_nl out). JSON_parse ln = None) \<longrightarrow>
      parseCargoDiagnostics JSON_parse out = Inr [])"
proof (intro conjI impI)
  show "\<exists>ds. parseCargoDiagnostics JSON_parse out = Inr ds"
    by (simp add: parseCargoDiagnostics_lines)
  show "parseCargoDiagnostics JSON_parse [] = Inr []"
    by (simp add: parseCargoDiagnostics_lines nonblank_lines_def trim_def)
next
  assume h: "\<forall>ln \<in> set (split_nl out). \<not> compiler_message_record JSON_parse ln"
  have "line_diagnostics JSON_parse ln = []" if "ln \<in> set (nonblank_lines out)" for ln
    using that h nonblank_lines_subset line_diagnostics_record by blast
  then show "parseCargoDiagnostics JSON_parse out = Inr []"
    by (simp add: parseCargoDiagnostics_lines)
next
  assume h: "\<forall>ln \<in> set (split_nl out). JSON_parse ln = None"
  have "line_diagnostics JSON_parse ln = []" if "ln \<in> set (nonblank_lines out)" for ln
  proof -
    from that h nonblank_lines_subset have "JSON_parse ln = None" by blast
    then show ?thesis by (simp add: line_diagnostics_def try_body_def)
  qed
  then show "parseCargoDiagnostics JSON_parse out = Inr []"
    by (simp add: parseCargoDiagnostics_lines)
qed

theorem parseCargoDiagnostics_never_raises_witness:
  "parseCargoDiagnostics sample_JSON_parse (line_artifact @ NL # ''not valid json'' @ NL # line_no_spans)
     = Inr [] \<and>
   parseCargoDiagnostics sample_JSON_parse (''not valid json'' @ NL # ''{ broken json'') = Inr []"
proof -
  have h1: "\<forall>ln \<in> set (split_nl (line_artifact @ NL # ''not valid json'' @ NL # line_no_spans)).
              \<not> compiler_message_record sample_JSON_parse ln"
    by code_simp
  have h2: "\<forall>ln \<in> set (split_nl (''not valid json'' @ NL # ''{ broken json'')).
              sample_JSON_parse ln = None"
    by code_simp
  from parseCargoDiagnostics_never_raises
         [of sample_JSON_parse "line_artifact @ NL # ''not valid json'' @ NL # line_no_spans"]
       parseCargoDiagnostics_never_raises
         [of sample_JSON_parse "''not valid json'' @ NL # ''{ broken json''"]
       h1 h2
  show ?thesis by blast
qed

section \<open>Properties of the test result parser\<close>

subsection \<open>The loop over the lines\<close>

lemma tests_loop_acc: "tests_loop lns ts = ts @ tests_loop lns []"
proof (induction lns arbitrary: ts)
  case Nil
  show ?case by simp
next
  case (Cons ln lns)
  define s where
    "s = (case outcome_match ln of
            None \<Rightarrow> []
          | Some (nm, tok) \<Rightarrow> [\<lparr>name = nm, status = toLowerCase tok\<rparr>])"
  have step: "tests_loop (ln # lns) us = tests_loop lns (us @ s)" for us
    by (simp add: s_def split: option.splits)
  have "tests_loop (ln # lns) ts = (ts @ s) @ tests_loop lns []"
    unfolding step by (rule Cons.IH)
  moreover have "tests_loop (ln # lns) [] = s @ tests_loop lns []"
    unfolding step using Cons.IH [of s] by simp
  ultimately show ?case by simp
qed

lemma tests_loop_append: "tests_loop (xs @ ys) ts = tests_loop ys (tests_loop xs ts)"
  by (induction xs arbitrary: ts) simp_all

lemma tests_append:
  "tests (parseTestOutput (a @ NL # b)) = tests (parseTestOutput a) @ tests (parseTestOutput b)"
proof -
  have "tests_loop (split_nl a @ split_nl b) [] = tests_loop (split_nl a) [] @ tests_loop (split_nl b) []"
    by (subst tests_loop_append, subst tests_loop_acc) simp
  then show ?thesis
    by (simp add: parseTestOutput_def Let_def split_nl_append)
qed

lemma tests_loop_length:
  "length (tests_loop lns []) = length (filter (\<lambda>l. outcome_match l \<noteq> None) lns)"
proof (induction lns)
  case Nil
  show ?case by simp
next
  case (Cons ln lns)
  have "length (tests_loop (ln # lns) [])
          = (if outcome_match ln = None then 0 else 1) + length (tests_loop lns [])"
    by (simp, subst tests_loop_acc) (simp split: option.splits prod.splits)
  with Cons show ?case by simp
qed

subsection \<open>A summary match never crosses a line feed\<close>

lemma strip_lit_NL:
  "NL \<notin> set lit \<Longrightarrow>
     strip_lit lit (x @ NL # b) = map_option (\<lambda>r. r @ NL # b) (strip_lit lit x)"
  by (induction lit x rule: strip_lit.induct) auto

lemma isDigit_NL [simp]: "\<not> isDigit NL"
  by (simp add: isDigit_def)

lemma takeWhile_isDigit_NL: "takeWhile isDigit (x @ NL # b) = takeWhile isDigit x"
  by (induction x) simp_all

lemma dropWhile_isDigit_NL: "dropWhile isDigit (x @ NL # b) = dropWhile isDigit x @ NL # b"
  by (induction x) simp_all

lemma digits_then_NL:
  "NL \<notin> set lit \<Longrightarrow>
     digits_then lit (x @ NL # b) = map_option (\<lambda>(d, r). (d, r @ NL # b)) (digits_then lit x)"
  by (simp add: digits_then_def takeWhile_isDigit_NL dropWhile_isDigit_NL strip_lit_NL
           split: option.splits)

lemma counts_tail_NL: "counts_tail (x @ NL # b) = counts_tail x"
  by (simp add: counts_tail_def strip_lit_NL digits_then_NL split: option.splits)

lemma counts_tail_Nil [simp]: "counts_tail [] = None"
  by (simp add: counts_tail_def)

lemma status_lazy_NL: "status_lazy (x @ NL # b) = status_lazy x"
proof (induction x)
  case Nil
  have "counts_tail (NL # b) = None"
    using counts_tail_NL [of "[]" b] by simp
  then show ?case by (simp add: isLineTerminator_def)
next
  case (Cons c x)
  have "counts_tail (c # x @ NL # b) = counts_tail (c # x)"
    using counts_tail_NL [of "c # x" b] by simp
  with Cons show ?case by (simp split: option.splits)
qed

lemma summary_at_NL: "summary_at (x @ NL # b) = summary_at x"
  by (simp add: summary_at_def strip_lit_NL status_lazy_NL split: option.splits)

lemma summary_at_Nil [simp]: "summary_at [] = None"
  by (simp add: summary_at_def)

lemma summaryMatch_NL:
  "summaryMatch (a @ NL # b) = (case summaryMatch a of Some r \<Rightarrow> Some r | None \<Rightarrow> summaryMatch b)"
proof (induction a)
  case Nil
  have "summary_at (NL # b) = None"
    using summary_at_NL [of "[]" b] by simp
  then show ?case by simp
next
  case (Cons c a)
  have "summary_at (c # a @ NL # b) = summary_at (c # a)"
    using summary_at_NL [of "c # a" b] by simp
  with Cons show ?case by (simp split: option.splits)
qed

subsection \<open>The summary\<close>

lemma counts_tail_210:
  "counts_tail (''. 2 passed; 1 failed; 0 ignored'' @ post) = Some (''2'', ''1'', ''0'')"
  by (simp add: counts_tail_def digits_then_def isDigit_def)

lemma status_lazy_210:
  assumes "CHR ''.'' \<notin> set st" and "\<forall>c \<in> set st. \<not> isLineTerminator c"
  shows "status_lazy (st @ ''. 2 passed; 1 failed; 0 ignored'' @ post) = Some (''2'', ''1'', ''0'')"
  using assms
proof (induction st)
  case Nil
  show ?case using counts_tail_210 [of post] by simp
next
  case (Cons c st)
  from Cons.prems have "c \<noteq> CHR ''.''" by auto
  then have "counts_tail (c # st @ ''. 2 passed; 1 failed; 0 ignored'' @ post) = None"
    by (simp add: counts_tail_def)
  with Cons show ?case by simp
qed

lemma summaryMatch_210:
  assumes "CHR ''.'' \<notin> set st" and "\<forall>c \<in> set st. \<not> isLineTerminator c"
  shows "summaryMatch (''test result: '' @ st @ ''. 2 passed; 1 failed; 0 ignored'' @ post)
           = Some (''2'', ''1'', ''0'')"
proof -
  have "summary_at (''test result: '' @ st @ ''. 2 passed; 1 failed; 0 ignored'' @ post)
          = Some (''2'', ''1'', ''0'')"
    using status_lazy_210 [OF assms, of post] by (simp add: summary_at_def)
  then show ?thesis by simp
qed

text \<open>
  Claim C2, as the parser has it: the summary line is recognised by the prefix
  \<open>test result: \<close>, a status text and \<open>. \<close> in front of the counts. For every text
  whose first such line is \<open>test result: <status>. 2 passed; 1 failed; 0 ignored\<close>, with
  a status that holds no full stop and no line terminator, the summary is
  \<open>2 passed, 1 failed, 0 ignored\<close>, whatever stands before that line (\<open>pre\<close>, without a
  summary line of its own) and behind it (\<open>post\<close>), outcome lines included.
\<close>

theorem summary_from_test_result_line:
  assumes "CHR ''.'' \<notin> set st" and "\<forall>c \<in> set st. \<not> isLineTerminator c"
    and "summaryMatch pre = None"
  shows "summary (parseTestOutput
            (''test result: '' @ st @ ''. 2 passed; 1 failed; 0 ignored'' @ post))
           = ''2 passed, 1 failed, 0 ignored'' \<and>
         summary (parseTestOutput
            (pre @ NL # ''test result: '' @ st @ ''. 2 passed; 1 failed; 0 ignored'' @ post))
           = ''2 passed, 1 failed, 0 ignored''"
proof -
  note m = summaryMatch_210 [OF assms(1,2), of post]
  have "summaryMatch (pre @ NL # ''test result: '' @ st @ ''. 2 passed; 1 failed; 0 ignored'' @ post)
          = Some (''2'', ''1'', ''0'')"
    using m assms(3) by (simp only: summaryMatch_NL option.case)
  with m show ?thesis
    by (simp only: parseTestOutput_def Let_def TestOutput.simps option.case prod.case) simp
qed

theorem summary_from_test_result_line_witness:
  "summary (parseTestOutput
      (''test a ... ok'' @ NL # ''test result: '' @ ''FAILED'' @ ''. 2 passed; 1 failed; 0 ignored''
         @ ''; 0 measured''))
     = ''2 passed, 1 failed, 0 ignored''"
proof -
  have h1: "CHR ''.'' \<notin> set ''FAILED''" by simp
  have h2: "\<forall>c \<in> set ''FAILED''. \<not> isLineTerminator c" by (simp add: isLineTerminator_def)
  have h3: "summaryMatch ''test a ... ok'' = None" by code_simp
  from summary_from_test_result_line [OF h1 h2 h3, of "''; 0 measured''"]
  show ?thesis by blast
qed

text \<open>
  Claim C2 as it is written, for a text that holds exactly the line
  \<open>2 passed; 1 failed; 0 ignored\<close>, fails: without the prefix the line is no summary
  line, and the summary counts the outcome lines.
\<close>

theorem bare_counts_line_not_summary:
  "summary (parseTestOutput ''2 passed; 1 failed; 0 ignored'') = ''0 tests found''"
  by code_simp

text \<open>
  Claim C8: when the output has no summary line, the summary is \<open><n> tests found\<close>
  with \<open>n\<close> the number of lines that match the outcome pattern, which is also the
  number of outcomes returned; the empty output gives \<open>0 tests found\<close>.
\<close>

theorem degraded_summary:
  "(summaryMatch out = None \<longrightarrow>
      summary (parseTestOutput out)
        = string_of_nat (length (filter (\<lambda>l. outcome_match l \<noteq> None) (split_nl out)))
            @ '' tests found'' \<and>
      length (tests (parseTestOutput out))
        = length (filter (\<lambda>l. outcome_match l \<noteq> None) (split_nl out))) \<and>
   parseTestOutput [] = \<lparr>tests = [], summary = ''0 tests found''\<rparr>"
proof (intro conjI impI)
  assume "summaryMatch out = None"
  then show "summary (parseTestOutput out)
        = string_of_nat (length (filter (\<lambda>l. outcome_match l \<noteq> None) (split_nl out)))
            @ '' tests found''"
    by (simp add: parseTestOutput_def Let_def tests_loop_length)
  show "length (tests (parseTestOutput out))
        = length (filter (\<lambda>l. outcome_match l \<noteq> None) (split_nl out))"
    by (simp add: parseTestOutput_def Let_def tests_loop_length)
next
  have "outcome_match [] = None" by (simp add: outcome_match_def)
  then show "parseTestOutput [] = \<lparr>tests = [], summary = ''0 tests found''\<rparr>"
    by (simp add: parseTestOutput_def Let_def string_of_nat.simps)
qed

theorem degraded_summary_witness:
  "summary (parseTestOutput (''test a ... ok'' @ NL # ''hello'' @ NL # ''test b ... FAILED''))
     = ''2 tests found''"
proof -
  have h: "summaryMatch (''test a ... ok'' @ NL # ''hello'' @ NL # ''test b ... FAILED'') = None"
    by code_simp
  have n: "string_of_nat (length (filter (\<lambda>l. outcome_match l \<noteq> None)
              (split_nl (''test a ... ok'' @ NL # ''hello'' @ NL # ''test b ... FAILED''))))
           = ''2''"
    by code_simp
  from degraded_summary [of "''test a ... ok'' @ NL # ''hello'' @ NL # ''test b ... FAILED''"] h n
  show ?thesis by simp
qed

text \<open>The counts of a summary line are its three runs of digits, as they are written.\<close>

lemma strip_lit_prefix: "strip_lit lit (lit @ r) = Some r"
  by (induction lit) simp_all

lemma digits_then_run:
  assumes "d \<noteq> []" and "\<forall>c \<in> set d. isDigit c" and "lit \<noteq> []" and "\<not> isDigit (hd lit)"
  shows "digits_then lit (d @ lit @ r) = Some (d, r)"
proof -
  from assms(3) obtain c cs where lit: "lit = c # cs" by (cases lit) auto
  with assms(4) have c: "\<not> isDigit c" by simp
  have t: "takeWhile isDigit (d @ lit @ r) = d"
    using assms(2) c by (simp add: lit takeWhile_append2)
  have dr: "dropWhile isDigit (d @ lit @ r) = lit @ r"
    using assms(2) c by (simp add: lit dropWhile_append2)
  show ?thesis
    using assms(1) by (simp add: digits_then_def t dr strip_lit_prefix)
qed

lemma counts_tail_counts:
  assumes "p \<noteq> []" "f \<noteq> []" "i \<noteq> []" and "\<forall>c \<in> set (p @ f @ i). isDigit c"
  shows "counts_tail (''. '' @ p @ '' passed; '' @ f @ '' failed; '' @ i @ '' ignored'' @ post)
           = Some (p, f, i)"
proof -
  have sp: "\<not> isDigit (CHR '' '')" by (simp add: isDigit_def)
  have 1: "digits_then '' passed; '' (p @ '' passed; '' @ (f @ '' failed; '' @ i @ '' ignored'' @ post))
             = Some (p, f @ '' failed; '' @ i @ '' ignored'' @ post)"
    using assms sp by (intro digits_then_run) auto
  have 2: "digits_then '' failed; '' (f @ '' failed; '' @ (i @ '' ignored'' @ post))
             = Some (f, i @ '' ignored'' @ post)"
    using assms sp by (intro digits_then_run) auto
  have 3: "digits_then '' ignored'' (i @ '' ignored'' @ post) = Some (i, post)"
    using assms sp by (intro digits_then_run) auto
  have "strip_lit ''. '' (''. '' @ (p @ '' passed; '' @ f @ '' failed; '' @ i @ '' ignored'' @ post))
          = Some (p @ '' passed; '' @ f @ '' failed; '' @ i @ '' ignored'' @ post)"
    by (rule strip_lit_prefix)
  then show ?thesis
    unfolding counts_tail_def using 1 2 3 by (simp only: append_assoc option.case prod.case)
qed

lemma status_lazy_counts:
  assumes "CHR ''.'' \<notin> set st" and "\<forall>c \<in> set st. \<not> isLineTerminator c"
    and "counts_tail r = Some x"
  shows "status_lazy (st @ r) = Some x"
  using assms
proof (induction st)
  case Nil
  then show ?case by (cases r) simp_all
next
  case (Cons c st)
  from Cons.prems have "c \<noteq> CHR ''.''" by auto
  then have "counts_tail (c # st @ r) = None"
    by (simp add: counts_tail_def)
  with Cons show ?case by simp
qed

lemma summaryMatch_counts:
  assumes "p \<noteq> []" "f \<noteq> []" "i \<noteq> []" and "\<forall>c \<in> set (p @ f @ i). isDigit c"
    and "CHR ''.'' \<notin> set st" and "\<forall>c \<in> set st. \<not> isLineTerminator c"
  shows "summaryMatch (''test result: '' @ st @ ''. '' @ p @ '' passed; '' @ f @ '' failed; ''
                         @ i @ '' ignored'' @ post)
           = Some (p, f, i)"
proof -
  let ?r = "''. '' @ p @ '' passed; '' @ f @ '' failed; '' @ i @ '' ignored'' @ post"
  have "status_lazy (st @ ?r) = Some (p, f, i)"
    by (rule status_lazy_counts [OF assms(5,6) counts_tail_counts [OF assms(1-4)]])
  moreover have "strip_lit ''test result: '' (''test result: '' @ (st @ ?r)) = Some (st @ ?r)"
    by (rule strip_lit_prefix)
  ultimately have "summary_at (''test result: '' @ (st @ ?r)) = Some (p, f, i)"
    unfolding summary_at_def by (simp only: option.case)
  then show ?thesis by simp
qed

text \<open>
  Claim C10: the summary is made of the counts of the first summary line, and summary
  lines behind it change nothing. For all digit strings \<open>p\<close>, \<open>f\<close> and \<open>i\<close> and every
  status without full stop and line terminator, a text whose first summary line is
  \<open>test result: <status>. <p> passed; <f> failed; <i> ignored\<close> has the summary
  \<open><p> passed, <f> failed, <i> ignored\<close>, whatever stands before the line (\<open>pre\<close>,
  without a summary line of its own) and behind it (\<open>post\<close>, further summary lines
  included). In general, when a part \<open>a\<close> of the output has a summary match, the summary
  of \<open>a\<close> followed by a line feed and any further text \<open>b\<close> is the summary of \<open>a\<close>.
\<close>

theorem first_summary_line_wins:
  "(p \<noteq> [] \<longrightarrow> f \<noteq> [] \<longrightarrow> i \<noteq> [] \<longrightarrow> (\<forall>c \<in> set (p @ f @ i). isDigit c) \<longrightarrow>
    CHR ''.'' \<notin> set st \<longrightarrow> (\<forall>c \<in> set st. \<not> isLineTerminator c) \<longrightarrow> summaryMatch pre = None \<longrightarrow>
      summary (parseTestOutput
         (''test result: '' @ st @ ''. '' @ p @ '' passed; '' @ f @ '' failed; ''
            @ i @ '' ignored'' @ post))
        = p @ '' passed, '' @ f @ '' failed, '' @ i @ '' ignored'' \<and>
      summary (parseTestOutput
         (pre @ NL # ''test result: '' @ st @ ''. '' @ p @ '' passed; '' @ f @ '' failed; ''
            @ i @ '' ignored'' @ post))
        = p @ '' passed, '' @ f @ '' failed, '' @ i @ '' ignored'') \<and>
   (summaryMatch a = Some (p, f, i) \<longrightarrow>
      summary (parseTestOutput (a @ NL # b))
        = p @ '' passed, '' @ f @ '' failed, '' @ i @ '' ignored'' \<and>
      summary (parseTestOutput (a @ NL # b)) = summary (parseTestOutput a))"
proof (intro conjI impI)
  assume d: "p \<noteq> []" "f \<noteq> []" "i \<noteq> []" "\<forall>c \<in> set (p @ f @ i). isDigit c"
    and s: "CHR ''.'' \<notin> set st" "\<forall>c \<in> set st. \<not> isLineTerminator c"
    and pre: "summaryMatch pre = None"
  let ?line = "''test result: '' @ st @ ''. '' @ p @ '' passed; '' @ f @ '' failed; ''
                 @ i @ '' ignored'' @ post"
  note m = summaryMatch_counts [OF d s, of post]
  then show "summary (parseTestOutput ?line) = p @ '' passed, '' @ f @ '' failed, '' @ i @ '' ignored''"
    by (simp only: parseTestOutput_def Let_def TestOutput.simps option.case prod.case)
  have "summaryMatch (pre @ NL # ?line) = Some (p, f, i)"
    using m pre by (simp only: summaryMatch_NL option.case)
  then show "summary (parseTestOutput (pre @ NL # ?line))
               = p @ '' passed, '' @ f @ '' failed, '' @ i @ '' ignored''"
    by (simp only: parseTestOutput_def Let_def TestOutput.simps option.case prod.case)
next
  assume "summaryMatch a = Some (p, f, i)"
  then show "summary (parseTestOutput (a @ NL # b))
        = p @ '' passed, '' @ f @ '' failed, '' @ i @ '' ignored''"
    and "summary (parseTestOutput (a @ NL # b)) = summary (parseTestOutput a)"
    by (simp_all add: parseTestOutput_def Let_def summaryMatch_NL)
qed

theorem first_summary_line_wins_witness:
  "summary (parseTestOutput
      (''test a ... ok'' @ NL # ''test result: '' @ ''ok'' @ ''. '' @ ''12'' @ '' passed; '' @ ''0''
         @ '' failed; '' @ ''3'' @ '' ignored'' @
       (''; 0 measured'' @ NL # ''test result: FAILED. 7 passed; 8 failed; 9 ignored'')))
     = ''12 passed, 0 failed, 3 ignored'' \<and>
   summary (parseTestOutput
      (''test result: ok. 12 passed; 0 failed; 3 ignored'' @ NL #
       ''test result: FAILED. 7 passed; 8 failed; 9 ignored''))
     = ''12 passed, 0 failed, 3 ignored''"
proof -
  have h1: "''12'' \<noteq> []" "''0'' \<noteq> []" "''3'' \<noteq> []" by simp_all
  have h2: "\<forall>c \<in> set (''12'' @ ''0'' @ ''3''). isDigit c" by (simp add: isDigit_def)
  have h3: "CHR ''.'' \<notin> set ''ok''" by simp
  have h4: "\<forall>c \<in> set ''ok''. \<not> isLineTerminator c" by (simp add: isLineTerminator_def)
  have h5: "summaryMatch ''test a ... ok'' = None" by code_simp
  have h6: "summaryMatch ''test result: ok. 12 passed; 0 failed; 3 ignored'' = Some (''12'', ''0'', ''3'')"
    by code_simp
  note t = first_summary_line_wins
    [where p = "''12''" and f = "''0''" and i = "''3''" and st = "''ok''" and pre = "''test a ... ok''"
       and post = "''; 0 measured'' @ NL # ''test result: FAILED. 7 passed; 8 failed; 9 ignored''"
       and a = "''test result: ok. 12 passed; 0 failed; 3 ignored''"
       and b = "''test result: FAILED. 7 passed; 8 failed; 9 ignored''"]
  from t [THEN conjunct1] h1 h2 h3 h4 h5 have c1:
    "summary (parseTestOutput
      (''test a ... ok'' @ NL # ''test result: '' @ ''ok'' @ ''. '' @ ''12'' @ '' passed; '' @ ''0''
         @ '' failed; '' @ ''3'' @ '' ignored'' @
       (''; 0 measured'' @ NL # ''test result: FAILED. 7 passed; 8 failed; 9 ignored'')))
     = ''12 passed, 0 failed, 3 ignored''"
    by simp
  from t [THEN conjunct2] h6 have c2:
    "summary (parseTestOutput
      (''test result: ok. 12 passed; 0 failed; 3 ignored'' @ NL #
       ''test result: FAILED. 7 passed; 8 failed; 9 ignored''))
     = ''12 passed, 0 failed, 3 ignored''"
    by simp
  from c1 c2 show ?thesis by (intro conjI)
qed

section \<open>Order of the results\<close>

text \<open>
  Claim C9: both parsers keep the order of the input and drop no duplicate. The
  diagnostics of a text \<open>a\<close>, a line feed and a text \<open>b\<close> are the diagnostics of \<open>a\<close>
  followed by those of \<open>b\<close>, and the same holds for the outcomes of the test parser;
  so a record that occurs twice is emitted twice, each time at its place.
\<close>

theorem parsers_keep_input_order:
  "(parseCargoDiagnostics JSON_parse a = Inr da \<longrightarrow> parseCargoDiagnostics JSON_parse b = Inr db \<longrightarrow>
      parseCargoDiagnostics JSON_parse (a @ NL # b) = Inr (da @ db)) \<and>
   tests (parseTestOutput (a @ NL # b)) = tests (parseTestOutput a) @ tests (parseTestOutput b)"
  by (simp add: parseCargoDiagnostics_lines nonblank_lines_append tests_append)

theorem parsers_keep_input_order_witness:
  "parseCargoDiagnostics sample_JSON_parse
      (line_labelled_first @ NL # line_null_first @ NL # line_labelled_first)
     = Inr [diag_at ''warning'' ''b.rs'' 3 4, diag_at ''error'' ''b.rs'' 3 4,
            diag_at ''warning'' ''b.rs'' 3 4] \<and>
   tests (parseTestOutput (''test b ... FAILED'' @ NL # ''test a ... ok''))
     = [\<lparr>name = ''b'', status = ''failed''\<rparr>, \<lparr>name = ''a'', status = ''ok''\<rparr>]"
proof -
  have h1: "parseCargoDiagnostics sample_JSON_parse line_labelled_first
              = Inr [diag_at ''warning'' ''b.rs'' 3 4]"
    by code_simp
  have h2: "parseCargoDiagnostics sample_JSON_parse (line_null_first @ NL # line_labelled_first)
              = Inr [diag_at ''error'' ''b.rs'' 3 4, diag_at ''warning'' ''b.rs'' 3 4]"
    by code_simp
  have h3: "tests (parseTestOutput ''test b ... FAILED'') = [\<lparr>name = ''b'', status = ''failed''\<rparr>]"
    by code_simp
  have h4: "tests (parseTestOutput ''test a ... ok'') = [\<lparr>name = ''a'', status = ''ok''\<rparr>]"
    by code_simp
  from parsers_keep_input_order
         [of sample_JSON_parse line_labelled_first "[diag_at ''warning'' ''b.rs'' 3 4]"
             "line_null_first @ NL # line_labelled_first"
             "[diag_at ''error'' ''b.rs'' 3 4, diag_at ''warning'' ''b.rs'' 3 4]"]
       parsers_keep_input_order [where a = "''test b ... FAILED''" and b = "''test a ... ok''"]
       h1 h2 h3 h4
  show ?thesis by simp
qed

section \<open>Properties of the report formatter\<close>

lemma failed_lines_acc: "failed_lines fs out = out @ failed_lines fs []"
proof (induction fs arbitrary: out)
  case Nil
  show ?case by simp
next
  case (Cons t fs)
  have "failed_lines (t # fs) out = (out @ ''   - '' @ name t @ [NL]) @ failed_lines fs []"
    by (simp only: failed_lines.simps) (rule Cons.IH)
  moreover have "failed_lines (t # fs) [] = (''   - '' @ name t @ [NL]) @ failed_lines fs []"
    by (simp only: failed_lines.simps append_Nil) (rule Cons.IH)
  ultimately show ?case by simp
qed

lemma failed_lines_Cons: "failed_lines fs (x # xs) = (x # xs) @ failed_lines fs []"
  by (rule failed_lines_acc)

lemma lf_then_C_append:
  "lf_then_C (xs @ ys) =
     (lf_then_C xs \<or> lf_then_C ys \<or> (xs \<noteq> [] \<and> ys \<noteq> [] \<and> last xs = NL \<and> hd ys = CHR ''C''))"
proof (induction xs rule: lf_then_C.induct)
  case (1 x y zs)
  then show ?case by auto
next
  case (2 x)
  show ?case by (cases ys) auto
next
  case 3
  show ?case by simp
qed

lemma lf_then_C_Cons:
  "lf_then_C (x # xs) = ((x = NL \<and> xs \<noteq> [] \<and> hd xs = CHR ''C'') \<or> lf_then_C xs)"
  by (cases xs) auto

lemma lf_then_C_needs_NL: "NL \<notin> set xs \<Longrightarrow> \<not> lf_then_C xs"
  by (induction xs rule: lf_then_C.induct) auto

lemma sublist_lf_then_C: "sublist (NL # CHR ''C'' # r) xs \<Longrightarrow> lf_then_C xs"
  by (auto simp: sublist_def lf_then_C_append)

lemma heading_free_append:
  "heading_free xs \<Longrightarrow> heading_free ys \<Longrightarrow> heading_free (xs @ ys)"
  by (auto simp: heading_free_def lf_then_C_append hd_append)

lemma heading_free_Nil [simp]: "heading_free []"
  by (simp add: heading_free_def)

lemma heading_free_line:
  "NL \<notin> set nm \<Longrightarrow> heading_free (''   - '' @ nm @ [NL])"
  by (auto simp: heading_free_def lf_then_C_Cons lf_then_C_append dest: lf_then_C_needs_NL)

lemma heading_free_failed_lines:
  "\<forall>t \<in> set fs. NL \<notin> set (name t) \<Longrightarrow> heading_free (failed_lines fs [])"
proof (induction fs)
  case Nil
  show ?case by simp
next
  case (Cons t fs)
  have "failed_lines (t # fs) [] = (''   - '' @ name t @ [NL]) @ failed_lines fs []"
    by (simp only: failed_lines.simps append_Nil) (rule failed_lines_acc)
  with Cons show ?case
    by (simp only:) (rule heading_free_append, rule heading_free_line, simp_all)
qed

lemma string_of_nat_digits: "set (string_of_nat n) \<subseteq> set ''0123456789''"
proof (induction n rule: string_of_nat.induct)
  case (1 n)
  have d: "digit_char n \<in> set ''0123456789''"
    by (simp only: digit_char.simps) (rule nth_mem, simp)
  show ?case
  proof (cases "n < 10")
    case True
    with d show ?thesis by (subst string_of_nat.simps) simp
  next
    case False
    with d 1 show ?thesis by (subst string_of_nat.simps) simp
  qed
qed

lemma heading_free_count:
  "heading_free (mark @ lbl @ string_of_nat n @ '' tests'' @ [NL])"
  if "heading_free (mark @ lbl)" "mark @ lbl \<noteq> []"
proof -
  have "NL \<notin> set (string_of_nat n)" "CHR ''C'' \<notin> set (string_of_nat n)"
    using string_of_nat_digits [of n] by auto
  then have "heading_free (string_of_nat n @ '' tests'' @ [NL])"
    by (cases "string_of_nat n")
       (auto simp: heading_free_def lf_then_C_Cons lf_then_C_append dest: lf_then_C_needs_NL)
  with that(1) have "heading_free ((mark @ lbl) @ string_of_nat n @ '' tests'' @ [NL])"
    by (rule heading_free_append)
  then show ?thesis by simp
qed

lemma heading_free_report:
  assumes "NL \<notin> set sm" and "\<forall>t \<in> set ts. NL \<notin> set (name t)"
  shows "heading_free (formatTestResults ts sm 0 [])"
proof -
  let ?failed = "filter (\<lambda>t. status t = ''failed'') ts"
  let ?passed = "filter (\<lambda>t. status t = ''ok'') ts"
  let ?ignored = "filter (\<lambda>t. status t = ''ignored'') ts"
  define s0 where "s0 = ''Test Results: '' @ sm @ [NL, NL]"
  define s1 where
    "s1 = (if length ?failed > 0
           then (cross_mark @ '' Failed tests:'' @ [NL]) @ failed_lines ?failed [] @ [NL] else [])"
  define s2 where
    "s2 = (if length ?passed > 0
           then check_mark @ '' Passed: '' @ string_of_nat (length ?passed) @ '' tests'' @ [NL]
           else [])"
  define s3 where
    "s3 = (if length ?ignored > 0
           then skip_mark @ '' Ignored: '' @ string_of_nat (length ?ignored) @ '' tests'' @ [NL]
           else [])"
  have eq: "formatTestResults ts sm 0 [] = s0 @ s1 @ s2 @ s3"
    unfolding formatTestResults_def Let_def s0_def s1_def s2_def s3_def
    by (simp add: failed_lines_Cons)
  have h0: "heading_free s0"
    using assms(1)
    by (auto simp: s0_def heading_free_def lf_then_C_Cons lf_then_C_append dest: lf_then_C_needs_NL)
  have a: "heading_free (cross_mark @ '' Failed tests:'' @ [NL])"
    by (simp add: heading_free_def cross_mark_def)
  have b: "heading_free (failed_lines ?failed [])"
    using assms(2) by (intro heading_free_failed_lines) simp
  have c: "heading_free [NL]"
    by (simp add: heading_free_def)
  have "heading_free ((cross_mark @ '' Failed tests:'' @ [NL]) @ failed_lines ?failed [] @ [NL])"
    by (rule heading_free_append [OF a heading_free_append [OF b c]])
  then have h1: "heading_free s1"
    unfolding s1_def by (simp only: heading_free_Nil if_split) simp
  have "heading_free (check_mark @ '' Passed: '' @ string_of_nat (length ?passed) @ '' tests'' @ [NL])"
    by (rule heading_free_count) (simp_all add: heading_free_def check_mark_def)
  then have h2: "heading_free s2"
    unfolding s2_def by (simp only: heading_free_Nil if_split) simp
  have "heading_free (skip_mark @ '' Ignored: '' @ string_of_nat (length ?ignored) @ '' tests'' @ [NL])"
    by (rule heading_free_count) (simp_all add: heading_free_def skip_mark_def)
  then have h3: "heading_free s3"
    unfolding s3_def by (simp only: heading_free_Nil if_split) simp
  show ?thesis
    unfolding eq using h0 h1 h2 h3 by (intro heading_free_append)
qed

lemma report_without_error_heading:
  assumes "NL \<notin> set sm" and "\<forall>t \<in> set ts. NL \<notin> set (name t)"
  shows "\<not> sublist ([NL] @ ''Compilation or other error:'' @ [NL] @ stderr) (formatTestResults ts sm 0 [])"
proof
  assume "sublist ([NL] @ ''Compilation or other error:'' @ [NL] @ stderr) (formatTestResults ts sm 0 [])"
  then have "lf_then_C (formatTestResults ts sm 0 [])"
    by (simp only: append_Cons append_Nil) (rule sublist_lf_then_C)
  with heading_free_report [OF assms] show False
    by (simp add: heading_free_def)
qed

text \<open>
  Claim C3, as the formatter has it: when the summary and the test names hold no line
  feed (as everything the test parser returns), the report contains the section
  \<open>Compilation or other error:\<close> with the error text as it is, and contains its
  heading at all, exactly when the exit code is not 0 and no outcome is failed. The
  report is then the report for exit code 0 followed by the section. With one failed
  outcome and exit code 1 the report is the summary line, the heading of the failed
  tests and the name of the test, and the heading of the error section is absent.
\<close>

theorem error_section_iff:
  assumes "NL \<notin> set sm" and "\<forall>t \<in> set ts. NL \<notin> set (name t)"
  shows
    "sublist ([NL] @ ''Compilation or other error:'' @ [NL] @ stderr)
             (formatTestResults ts sm exitCode stderr)
       = (exitCode \<noteq> 0 \<and> filter (\<lambda>t. status t = ''failed'') ts = []) \<and>
     sublist ([NL] @ ''Compilation or other error:'') (formatTestResults ts sm exitCode stderr)
       = (exitCode \<noteq> 0 \<and> filter (\<lambda>t. status t = ''failed'') ts = []) \<and>
     formatTestResults ts sm exitCode stderr
       = formatTestResults ts sm 0 [] @
         (if exitCode \<noteq> 0 \<and> filter (\<lambda>t. status t = ''failed'') ts = []
          then [NL] @ ''Compilation or other error:'' @ [NL] @ stderr
          else []) \<and>
     (ts = [\<lparr>name = nm, status = ''failed''\<rparr>] \<longrightarrow>
        formatTestResults ts sm 1 stderr
          = ''Test Results: '' @ sm @ [NL, NL] @ cross_mark @ '' Failed tests:'' @ [NL]
              @ ''   - '' @ nm @ [NL] @ [NL] \<and>
        \<not> sublist ([NL] @ ''Compilation or other error:'') (formatTestResults ts sm 1 stderr))"
proof -
  let ?cond = "exitCode \<noteq> 0 \<and> filter (\<lambda>t. status t = ''failed'') ts = []"
  let ?head = "[NL] @ ''Compilation or other error:''"
  let ?section = "[NL] @ ''Compilation or other error:'' @ [NL] @ stderr"
  have eq: "formatTestResults ts sm e stderr
       = formatTestResults ts sm 0 [] @
         (if e \<noteq> 0 \<and> filter (\<lambda>t. status t = ''failed'') ts = [] then ?section else [])" for e
    by (simp add: formatTestResults_def Let_def)
  have no_head: "\<not> sublist (?head @ r) (formatTestResults ts sm 0 [])" for r
  proof
    assume "sublist (?head @ r) (formatTestResults ts sm 0 [])"
    then have "lf_then_C (formatTestResults ts sm 0 [])"
      by (simp only: append_Cons append_Nil) (rule sublist_lf_then_C)
    with heading_free_report [OF assms] show False
      by (simp add: heading_free_def)
  qed
  have absent: "\<not> sublist (?head @ r) (formatTestResults ts sm e stderr)"
    if "\<not> (e \<noteq> 0 \<and> filter (\<lambda>t. status t = ''failed'') ts = [])" for e r
  proof -
    from that have "formatTestResults ts sm e stderr = formatTestResults ts sm 0 []"
      using eq [of e] by auto
    with no_head [of r] show ?thesis by simp
  qed
  have present: "sublist ?section (formatTestResults ts sm exitCode stderr)"
    and present_head: "sublist ?head (formatTestResults ts sm exitCode stderr)" if ?cond
  proof -
    from that have out: "formatTestResults ts sm exitCode stderr = formatTestResults ts sm 0 [] @ ?section"
      using eq [of exitCode] by simp
    have "sublist ?section (formatTestResults ts sm 0 [] @ ?section @ [])"
      by (rule sublist_appendI)
    with out show "sublist ?section (formatTestResults ts sm exitCode stderr)" by simp
    have "sublist ?head (formatTestResults ts sm 0 [] @ ?head @ ([NL] @ stderr))"
      by (rule sublist_appendI)
    with out show "sublist ?head (formatTestResults ts sm exitCode stderr)" by simp
  qed
  have c1: "sublist ?section (formatTestResults ts sm exitCode stderr) = ?cond"
    using present absent [of exitCode "[NL] @ stderr"] by auto
  have c2: "sublist ?head (formatTestResults ts sm exitCode stderr) = ?cond"
    using present_head absent [of exitCode "[]"] by auto
  have c4: "formatTestResults ts sm 1 stderr
          = ''Test Results: '' @ sm @ [NL, NL] @ cross_mark @ '' Failed tests:'' @ [NL]
              @ ''   - '' @ nm @ [NL] @ [NL] \<and>
        \<not> sublist ?head (formatTestResults ts sm 1 stderr)"
    if ts: "ts = [\<lparr>name = nm, status = ''failed''\<rparr>]"
  proof
    show "formatTestResults ts sm 1 stderr
          = ''Test Results: '' @ sm @ [NL, NL] @ cross_mark @ '' Failed tests:'' @ [NL]
              @ ''   - '' @ nm @ [NL] @ [NL]"
      by (simp add: ts formatTestResults_def Let_def)
    have "\<not> ((1::int) \<noteq> 0 \<and> filter (\<lambda>t. status t = ''failed'') ts = [])"
      by (simp add: ts)
    from absent [OF this, of "[]"] show "\<not> sublist ?head (formatTestResults ts sm 1 stderr)"
      by simp
  qed
  from c1 c2 eq [of exitCode] c4 show ?thesis by blast
qed

theorem error_section_iff_witness:
  "sublist ([NL] @ ''Compilation or other error:'' @ [NL] @ ''error[E0425]'')
           (formatTestResults [] ''0 tests found'' 1 ''error[E0425]'') \<and>
   formatTestResults [\<lparr>name = ''test_fail'', status = ''failed''\<rparr>] ''0 passed, 1 failed, 0 ignored''
       1 ''thread panicked''
     = ''Test Results: 0 passed, 1 failed, 0 ignored'' @ [NL, NL] @ cross_mark
         @ '' Failed tests:'' @ [NL] @ ''   - test_fail'' @ [NL, NL] \<and>
   \<not> sublist ([NL] @ ''Compilation or other error:'')
       (formatTestResults [\<lparr>name = ''test_fail'', status = ''failed''\<rparr>]
          ''0 passed, 1 failed, 0 ignored'' 1 ''thread panicked'')"
proof -
  have h1: "NL \<notin> set ''0 tests found''" by simp
  have h2: "\<forall>t \<in> set ([] :: TestResult list). NL \<notin> set (name t)" by simp
  have h3: "NL \<notin> set ''0 passed, 1 failed, 0 ignored''" by simp
  have h4: "\<forall>t \<in> set [\<lparr>name = ''test_fail'', status = ''failed''\<rparr>]. NL \<notin> set (name t)" by simp
  note t1 = error_section_iff
    [where ts = "[]" and sm = "''0 tests found''" and exitCode = 1 and stderr = "''error[E0425]''",
     OF h1 h2]
  note t2 = error_section_iff
    [where ts = "[\<lparr>name = ''test_fail'', status = ''failed''\<rparr>]"
       and sm = "''0 passed, 1 failed, 0 ignored''" and exitCode = 1
       and stderr = "''thread panicked''" and nm = "''test_fail''", OF h3 h4]
  from t1 [THEN conjunct1] have c1:
    "sublist ([NL] @ ''Compilation or other error:'' @ [NL] @ ''error[E0425]'')
             (formatTestResults [] ''0 tests found'' 1 ''error[E0425]'')"
    by simp
  note r = t2 [THEN conjunct2, THEN conjunct2, THEN conjunct2, rule_format, OF refl]
  from r [THEN conjunct1] have c2:
    "formatTestResults [\<lparr>name = ''test_fail'', status = ''failed''\<rparr>] ''0 passed, 1 failed, 0 ignored''
         1 ''thread panicked''
       = ''Test Results: 0 passed, 1 failed, 0 ignored'' @ [NL, NL] @ cross_mark
           @ '' Failed tests:'' @ [NL] @ ''   - test_fail'' @ [NL, NL]"
    by simp
  note c3 = r [THEN conjunct2]
  from c1 c2 c3 show ?thesis by (intro conjI)
qed

text \<open>
  Claim C3 as it is written, for every outcome list and summary, fails when the
  summary or a test name holds the text of the section itself, behind a line feed:
  the report then contains the section with exit code 0, and with a failed outcome.
\<close>

theorem forged_text_holds_section:
  "sublist ([NL] @ ''Compilation or other error:'' @ [NL] @ ''boom'')
     (formatTestResults [] (''none'' @ [NL] @ ''Compilation or other error:'' @ [NL] @ ''boom'') 0 ''boom'') \<and>
   sublist ([NL] @ ''Compilation or other error:'' @ [NL] @ ''boom'')
     (formatTestResults
        [\<lparr>name = ''t'' @ [NL] @ ''Compilation or other error:'' @ [NL] @ ''boom'', status = ''failed''\<rparr>]
        ''0 passed, 1 failed, 0 ignored'' 1 ''boom'')"
  by code_simp

section \<open>Properties of the tool-call handler\<close>

text \<open>
  Claim C7, as the handler has it: for every tool name and every path that is not
  empty and whose directory has no \<open>Cargo.toml\<close>, the response is flagged as an error,
  its text names \<open>Cargo.toml\<close> and the path, and the log of started processes is the
  one the handler was given, whatever the \<open>switch\<close> would do.
\<close>

theorem missing_marker_rejected:
  assumes "path a = Some p" and "p \<noteq> []" and "\<not> existsSync (path_join p ''Cargo.toml'')"
  shows "call_tool path_join existsSync tool_switch nm (Some a) lg
           = Inr (\<lparr>text_of = ''Error: No Cargo.toml found at '' @ p @ ''. Is this a Rust project?'',
                   isError = True\<rparr>, lg) \<and>
         sublist ''Cargo.toml'' (''Error: No Cargo.toml found at '' @ p @ ''. Is this a Rust project?'') \<and>
         sublist p (''Error: No Cargo.toml found at '' @ p @ ''. Is this a Rust project?'')"
proof (intro conjI)
  show "call_tool path_join existsSync tool_switch nm (Some a) lg
           = Inr (\<lparr>text_of = ''Error: No Cargo.toml found at '' @ p @ ''. Is this a Rust project?'',
                   isError = True\<rparr>, lg)"
    using assms by (simp add: call_tool_def validateRustProject_def)
  have "sublist ''Cargo.toml'' (''Error: No '' @ ''Cargo.toml'' @ ('' found at '' @ p @ ''. Is this a Rust project?''))"
    by (rule sublist_appendI)
  then show "sublist ''Cargo.toml'' (''Error: No Cargo.toml found at '' @ p @ ''. Is this a Rust project?'')"
    by simp
  have "sublist p (''Error: No Cargo.toml found at '' @ p @ ''. Is this a Rust project?'')"
    by (rule sublist_appendI)
  then show "sublist p (''Error: No Cargo.toml found at '' @ p @ ''. Is this a Rust project?'')" .
qed

theorem missing_marker_rejected_witness:
  "call_tool sample_join no_files (bacon_fmt_case sample_run) ''bacon_fmt''
      (Some \<lparr>path = Some ''/tmp/x'', options = ()\<rparr>) []
     = Inr (\<lparr>text_of = ''Error: No Cargo.toml found at /tmp/x. Is this a Rust project?'',
             isError = True\<rparr>, [])"
proof -
  have h1: "path \<lparr>path = Some ''/tmp/x'', options = ()\<rparr> = Some ''/tmp/x''" by simp
  have h2: "''/tmp/x'' \<noteq> []" by simp
  have h3: "\<not> no_files (sample_join ''/tmp/x'' ''Cargo.toml'')" by (simp add: no_files_def)
  from missing_marker_rejected
         [where a = "\<lparr>path = Some ''/tmp/x'', options = ()\<rparr>" and p = "''/tmp/x''"
            and existsSync = no_files and path_join = sample_join
            and tool_switch = "bacon_fmt_case sample_run" and nm = "''bacon_fmt''" and lg = "[]"]
       h1 h2 h3
  show ?thesis by simp
qed

text \<open>
  Claim C7 as it is written, for every supplied path, fails for the empty path: the
  first guard answers \<open>Error: path is required\<close>, which does not name \<open>Cargo.toml\<close>.
\<close>

theorem empty_path_not_named:
  "call_tool sample_join no_files (bacon_fmt_case sample_run) ''bacon_fmt''
      (Some \<lparr>path = Some [], options = ()\<rparr>) []
     = Inr (\<lparr>text_of = ''Error: path is required'', isError = True\<rparr>, []) \<and>
   \<not> sublist ''Cargo.toml'' ''Error: path is required''"
  by code_simp

text \<open>
  Behind the guards a process is started: with the marker file in place, the case
  \<open>bacon_fmt\<close> logs \<open>cargo fmt\<close> in the project directory.
\<close>

lemma marker_present_spawns:
  "call_tool sample_join only_marker (bacon_fmt_case sample_run) ''bacon_fmt''
      (Some \<lparr>path = Some ''/crate'', options = ()\<rparr>) []
     = Inr (\<lparr>text_of = check_mark @ '' Code formatted successfully!'', isError = False\<rparr>,
            [([''fmt''], ''/crate'')])"
  by code_simp

end
